theory Spec2Isabelle
  imports Complex_Main "HOL-Library.Log_Nat" "HOL-Library.Sublist"
begin

section \<open>Strings and numbers as the script uses them\<close>

text \<open>
  Strings are lists of code units. Numbers that the application handles as byte counts,
  page numbers and list indices are non-negative integers and are modelled as \<open>nat\<close>;
  the divisions of \<open>formatFileSize\<close> and of the per-page estimate are taken exactly
  (floating-point rounding of the quotient is not modelled).
\<close>

definition digitChar :: "nat \<Rightarrow> char" where
  "digitChar d = ''0123456789'' ! (d mod 10)"

text \<open>Decimal rendering of an integer, as a template literal or \<open>+\<close> on a string does.\<close>

fun showNat :: "nat \<Rightarrow> string" where
  "showNat n = (if n < 10 then [digitChar n] else showNat (n div 10) @ [digitChar (n mod 10)])"

declare showNat.simps [simp del]

section \<open>formatFileSize\<close>

text \<open>
  \<^verbatim>\<open>
  const formatFileSize = (bytes: number): string => {
    if (bytes === 0) return '0 Bytes';
    const k = 1024;
    const sizes = ['Bytes', 'KB', 'MB', 'GB'];
    const i = Math.floor(Math.log(bytes) / Math.log(k));
    return parseFloat((bytes / Math.pow(k, i)).toFixed(2)) + ' ' + sizes[i];
  };
  \<close>
\<close>

definition sizes :: "string list" where
  "sizes = [''Bytes'', ''KB'', ''MB'', ''GB'']"

text \<open>
  \<open>Math.floor(Math.log(bytes) / Math.log(1024))\<close> for \<open>bytes > 0\<close>, computed by repeated
  division; \<open>unitIndex_log\<close> below shows that it is the floor of the quotient of logarithms.
\<close>

fun unitIndex :: "nat \<Rightarrow> nat" where
  "unitIndex bytes = (if bytes < 1024 then 0 else Suc (unitIndex (bytes div 1024)))"

declare unitIndex.simps [simp del]

text \<open>\<open>sizes[i]\<close>: an index past the end of the array reads \<open>undefined\<close>, which string
  concatenation renders as the text \<open>undefined\<close>.\<close>

definition sizesAt :: "nat \<Rightarrow> string" where
  "sizesAt i = (if i < length sizes then sizes ! i else ''undefined'')"

text \<open>\<open>(bytes / d).toFixed(2)\<close> as a count of hundredths: the nearest one, the larger at a tie.\<close>

definition toFixed2 :: "nat \<Rightarrow> nat \<Rightarrow> nat" where
  "toFixed2 bytes d = (200 * bytes + d) div (2 * d)"

text \<open>\<open>parseFloat\<close> of the two-decimal text followed by conversion back to a string:
  trailing zeros of the fraction are dropped.\<close>

definition showHundredths :: "nat \<Rightarrow> string" where
  "showHundredths n =
     (let w = n div 100; f = n mod 100
      in showNat w @
         (if f = 0 then []
          else if f mod 10 = 0 then ''.'' @ [digitChar (f div 10)]
          else ''.'' @ [digitChar (f div 10), digitChar (f mod 10)]))"

definition formatFileSize :: "nat \<Rightarrow> string" where
  "formatFileSize bytes =
     (if bytes = 0 then ''0 Bytes''
      else let k = 1024; i = unitIndex bytes
           in showHundredths (toFixed2 bytes (k ^ i)) @ '' '' @ sizesAt i)"

section \<open>Options and the quality mapping\<close>

datatype OutputFormat = Jpeg | Png | Pdf

datatype CompressionLevel = Low | Medium | High

record CompressionOptions =
  format :: OutputFormat
  level :: CompressionLevel

text \<open>
  \<^verbatim>\<open>
  const getQuality = (): number => {
    switch (options.level) {
      case 'low': return 0.5;
      case 'medium': return 0.75;
      case 'high': return 0.92;
      default: return 0.75;
    }
  };
  \<close>
  The \<open>default\<close> branch is unreachable for a value of the level type.
\<close>

definition getQuality :: "CompressionOptions \<Rightarrow> real" where
  "getQuality options =
     (case level options of Low \<Rightarrow> 5 / 10 | Medium \<Rightarrow> 75 / 100 | High \<Rightarrow> 92 / 100)"

text \<open>The text that \<open>${options.format}\<close> produces.\<close>

fun formatName :: "OutputFormat \<Rightarrow> string" where
  "formatName Jpeg = ''jpeg''"
| "formatName Png = ''png''"
| "formatName Pdf = ''pdf''"

section \<open>Browser values\<close>

type_synonym bytes = "nat list"

text \<open>A \<open>File\<close> as the script reads it: \<open>file.name\<close>, \<open>file.size\<close>, \<open>file.type\<close>.\<close>

record SourceFile =
  fileName :: string
  fileSize :: nat
  fileType :: string

record Blob =
  blobType :: string
  blobBytes :: bytes

definition blobSize :: "Blob \<Rightarrow> nat" where
  "blobSize b = length (blobBytes b)"

text \<open>
  A promise that rejects and a call that throws are values \<open>Inl message\<close>; the message is
  what \<open>err.message\<close> reads, empty when the thrown value has none.
\<close>

text \<open>
  A page of a decoded document, as far as the script uses it: the \<open>str\<close> of the items of
  \<open>getTextContent()\<close>, whether \<open>getContext('2d')\<close> on the canvas made for the page gives a
  context, the outcome of \<open>page.render(...).promise\<close> at a scale (\<open>None\<close>: resolved), and
  what \<open>canvas.toDataURL(type, quality)\<close> returns after rendering at that scale.
\<close>

record PdfPage =
  textItems :: "string + string list"
  context2d :: bool
  render :: "real \<Rightarrow> string option"
  toDataURL :: "real \<Rightarrow> string \<Rightarrow> real option \<Rightarrow> string"

text \<open>A decoded document: the outcome of \<open>getPage(i)\<close> for \<open>i = 1 .. numPages\<close>, in order.\<close>

type_synonym PdfDocument = "(string + PdfPage) list"

definition numPages :: "PdfDocument \<Rightarrow> nat" where
  "numPages pdf = length pdf"

definition getPage :: "PdfDocument \<Rightarrow> nat \<Rightarrow> string + PdfPage" where
  "getPage pdf i = (if 1 \<le> i \<and> i \<le> length pdf then pdf ! (i - 1) else Inl ''Invalid page request'')"

text \<open>What the \<open>FileReader\<close> does with the file: \<open>readAsArrayBuffer\<close> throws, the \<open>load\<close>
  event arrives (with \<open>e.target.result\<close>, possibly null), or the \<open>error\<close> event arrives.\<close>

datatype ReadOutcome = SyncThrow string | LoadEvent "bytes option" | ErrorEvent

text \<open>
  The collaborators outside \<^verbatim>\<open>App.tsx\<close>: the file reader, \<open>pdfjsLib.getDocument\<close>, the two
  functions of \<^verbatim>\<open>services/geminiService\<close>, the jsPDF calls that typeset a text and output a
  blob, \<open>URL.createObjectURL\<close> and \<open>atob\<close>.
\<close>

record Env =
  readAsArrayBuffer :: "SourceFile \<Rightarrow> ReadOutcome"
  getDocument :: "bytes \<Rightarrow> string + PdfDocument"
  summarizePdfText :: "string \<Rightarrow> string + string"
  editImageWithText :: "string \<Rightarrow> string \<Rightarrow> string \<Rightarrow> string + string"
  pdfFromText :: "string \<Rightarrow> string + Blob"
  createObjectURL :: "Blob \<Rightarrow> string"
  atob :: "string \<Rightarrow> string + string"

text \<open>The calls made to the remote service, in order.\<close>

datatype Call = Summarize string | EditImage string string string

section \<open>String helpers of the language\<close>

text \<open>\<open>s.split(sep)\<close> for a one-character separator.\<close>

fun splitOn :: "char \<Rightarrow> string \<Rightarrow> string list" where
  "splitOn sep [] = [[]]"
| "splitOn sep (c # cs) =
     (if c = sep then [] # splitOn sep cs
      else (case splitOn sep cs of [] \<Rightarrow> [[c]] | p # ps \<Rightarrow> (c # p) # ps))"

text \<open>\<open>xs.join(sep)\<close>.\<close>

fun joinWith :: "string \<Rightarrow> string list \<Rightarrow> string" where
  "joinWith sep [] = []"
| "joinWith sep [x] = x"
| "joinWith sep (x # y # ys) = x @ sep @ joinWith sep (y # ys)"

text \<open>\<open>s.replace(pat, rep)\<close> with a string pattern: only the first occurrence is replaced
  (\<open>rep\<close> has no \<open>$\<close> here).\<close>

fun replaceFirst :: "string \<Rightarrow> string \<Rightarrow> string \<Rightarrow> string" where
  "replaceFirst pat rep [] = (if pat = [] then rep else [])"
| "replaceFirst pat rep (c # cs) =
     (if prefix pat (c # cs) then rep @ drop (length pat) (c # cs)
      else c # replaceFirst pat rep cs)"

text \<open>
  \<open>s.match(/:(.*?);/)\<close>, returning group 1. From the leftmost colon at which it succeeds,
  the lazy group runs to the first semicolon; the dot does not cross a line terminator
  (line feed and carriage return, among the code units modelled here), in which case the
  search goes on from a later colon.
\<close>

definition lineTerminator :: "char \<Rightarrow> bool" where
  "lineTerminator c = (c = CHR 0x0A \<or> c = CHR 0x0D)"

fun untilSemicolon :: "string \<Rightarrow> string option" where
  "untilSemicolon [] = None"
| "untilSemicolon (c # cs) =
     (if c = CHR '';'' then Some []
      else if lineTerminator c then None
      else map_option ((#) c) (untilSemicolon cs))"

fun mimeMatch :: "string \<Rightarrow> string option" where
  "mimeMatch [] = None"
| "mimeMatch (c # cs) =
     (if c = CHR '':'' then (case untilSemicolon cs of Some m \<Rightarrow> Some m | None \<Rightarrow> mimeMatch cs)
      else mimeMatch cs)"

text \<open>
  \<open>name.replace(/(\.[\w\d_-]+)$/i, '_edited$1')\<close>. The class holds the ASCII letters and
  digits, the underscore and the hyphen. A match at a position needs a dot there and
  class characters, at least one, up to the end of the text; the leftmost match is
  replaced, and a text with no match is returned as it is.
\<close>

definition extChar :: "char \<Rightarrow> bool" where
  "extChar c =
     (let n = (of_char c :: nat)
      in (48 \<le> n \<and> n \<le> 57) \<or> (65 \<le> n \<and> n \<le> 90) \<or> (97 \<le> n \<and> n \<le> 122)
         \<or> c = CHR ''_'' \<or> c = CHR ''-'')"

definition extMatchHere :: "string \<Rightarrow> bool" where
  "extMatchHere s = (case s of [] \<Rightarrow> False | c # r \<Rightarrow> c = CHR ''.'' \<and> r \<noteq> [] \<and> list_all extChar r)"

fun insertEdited :: "string \<Rightarrow> string" where
  "insertEdited [] = []"
| "insertEdited (c # cs) =
     (if extMatchHere (c # cs) then ''_edited'' @ (c # cs) else c # insertEdited cs)"

text \<open>\<open>err.message || fallback\<close>.\<close>

definition orElse :: "string \<Rightarrow> string \<Rightarrow> string" where
  "orElse msg fallback = (if msg = [] then fallback else msg)"

text \<open>\<open>Math.round(a / b)\<close> for non-negative integers and \<open>b > 0\<close>: the nearest integer,
  the larger at a tie. With \<open>b = 0\<close> the script obtains no page and never reads the value.\<close>

definition mathRoundDiv :: "nat \<Rightarrow> nat \<Rightarrow> nat" where
  "mathRoundDiv a b = (2 * a + b) div (2 * b)"

section \<open>dataURLToBlob\<close>

text \<open>
  \<^verbatim>\<open>
  const arr = dataUrl.split(',');
  if (arr.length < 2) throw new Error('Invalid data URL');
  const mimeMatch = arr[0].match(/:(.*?);/);
  if (!mimeMatch || mimeMatch.length < 2) throw new Error('Could not parse MIME type from data URL');
  const mime = mimeMatch[1];
  const bstr = atob(arr[1]);
  let n = bstr.length;
  const u8arr = new Uint8Array(n);
  while (n--) { u8arr[n] = bstr.charCodeAt(n); }
  return new Blob([u8arr], { type: mime });
  \<close>
  The loop stores the code of every character of \<open>bstr\<close> at its own index.
\<close>

definition dataURLToBlob :: "(string \<Rightarrow> string + string) \<Rightarrow> string \<Rightarrow> string + Blob" where
  "dataURLToBlob decode dataUrl =
     (let arr = splitOn CHR '','' dataUrl
      in if length arr < 2 then Inl ''Invalid data URL''
         else (case mimeMatch (arr ! 0) of
                 None \<Rightarrow> Inl ''Could not parse MIME type from data URL''
               | Some mime \<Rightarrow>
                   (case decode (arr ! 1) of
                      Inl e \<Rightarrow> Inl e
                    | Inr bstr \<Rightarrow> Inr \<lparr>blobType = mime, blobBytes = map of_char bstr\<rparr>)))"

section \<open>generatePdfPreview\<close>

definition generatePdfPreview :: "Env \<Rightarrow> Blob \<Rightarrow> string + string" where
  "generatePdfPreview env pdfBlob =
     (case getDocument env (blobBytes pdfBlob) of
        Inl e \<Rightarrow> Inl e
      | Inr pdf \<Rightarrow>
          (case getPage pdf 1 of
             Inl e \<Rightarrow> Inl e
           | Inr page \<Rightarrow>
               if \<not> context2d page then Inl ''Could not get canvas context for preview''
               else (case render page 0.5 of
                       Some e \<Rightarrow> Inl e
                     | None \<Rightarrow> Inr (toDataURL page 0.5 ''image/png'' None))))"

section \<open>Application state\<close>

record ProcessedFile =
  name :: string
  dataUrl :: string
  previewUrl :: string
  originalSize :: nat
  compressedSize :: nat

datatype AppStatus = Idle | Processing | Success | Error

record EditingState =
  index :: nat
  prompt :: string
  isLoading :: bool

record AppState =
  "file" :: "SourceFile option"
  options :: CompressionOptions
  status :: AppStatus
  statusMessage :: string
  results :: "ProcessedFile list"
  error :: "string option"
  editingState :: "EditingState option"

section \<open>handleCompress\<close>

text \<open>
  The text loop of the summary branch:
  \<^verbatim>\<open>
  let fullText = '';
  for (let i = 1; i <= pdf.numPages; i++) {
    const page = await pdf.getPage(i);
    const textContent = await page.getTextContent();
    const pageText = textContent.items.map((item: any) => item.str).join(' ');
    fullText += pageText + '\n\n';
  }
  \<close>
\<close>

fun extractText :: "PdfDocument \<Rightarrow> string \<Rightarrow> string + string" where
  "extractText [] fullText = Inr fullText"
| "extractText (p # ps) fullText =
     (case p of
        Inl e \<Rightarrow> Inl e
      | Inr page \<Rightarrow>
          (case textItems page of
             Inl e \<Rightarrow> Inl e
           | Inr items \<Rightarrow>
               extractText ps (fullText @ joinWith '' '' items @ [CHR 0x0A, CHR 0x0A])))"

text \<open>
  One round of the image loop, after the progress message: \<open>Inr None\<close> when the canvas
  gives no context and the page is passed over.
  \<^verbatim>\<open>
  const page = await pdf.getPage(i);
  const viewport = page.getViewport({ scale: 1.5 });
  ...
  if (context) {
      await page.render({ canvasContext: context, viewport: viewport }).promise;
      const mimeType = `image/${options.format}`;
      const dataUrl = canvas.toDataURL(mimeType, getQuality());
      const compressedBlob = dataURLToBlob(dataUrl);
      processed.push({
          name: `${file.name.replace('.pdf', '')}_page_${i}.${options.format}`,
          dataUrl,
          previewUrl: dataUrl,
          originalSize: originalSizePerPage,
          compressedSize: compressedBlob.size,
      });
  }
  \<close>
\<close>

definition convertPage ::
  "Env \<Rightarrow> SourceFile \<Rightarrow> CompressionOptions \<Rightarrow> nat \<Rightarrow> nat \<Rightarrow> string + PdfPage
     \<Rightarrow> string + ProcessedFile option" where
  "convertPage env f opts originalSizePerPage i p =
     (case p of
        Inl e \<Rightarrow> Inl e
      | Inr page \<Rightarrow>
          if context2d page then
            (case render page 1.5 of
               Some e \<Rightarrow> Inl e
             | None \<Rightarrow>
                 (let mimeType = ''image/'' @ formatName (format opts);
                      url = toDataURL page 1.5 mimeType (Some (getQuality opts))
                  in case dataURLToBlob (atob env) url of
                       Inl e \<Rightarrow> Inl e
                     | Inr compressedBlob \<Rightarrow>
                         Inr (Some
                           \<lparr>name = replaceFirst ''.pdf'' [] (fileName f) @ ''_page_'' @ showNat i
                                    @ ''.'' @ formatName (format opts),
                            dataUrl = url,
                            previewUrl = url,
                            originalSize = originalSizePerPage,
                            compressedSize = blobSize compressedBlob\<rparr>)))
          else Inr None)"

text \<open>
  The image loop over the pages from number \<open>i\<close> on. It returns the state with the last
  progress message, and the list \<open>processed\<close> or the message of the failure that ended it.
\<close>

fun convertPages ::
  "Env \<Rightarrow> SourceFile \<Rightarrow> CompressionOptions \<Rightarrow> nat \<Rightarrow> nat \<Rightarrow> nat \<Rightarrow> PdfDocument
     \<Rightarrow> ProcessedFile list \<Rightarrow> AppState \<Rightarrow> (string + ProcessedFile list) \<times> AppState" where
  "convertPages env f opts n per i [] processed s = (Inr processed, s)"
| "convertPages env f opts n per i (p # ps) processed s =
     (let s1 = s\<lparr>statusMessage := ''Converting page '' @ showNat i @ '' of '' @ showNat n @ ''...''\<rparr>
      in case convertPage env f opts per i p of
           Inl e \<Rightarrow> (Inl e, s1)
         | Inr None \<Rightarrow> convertPages env f opts n per (Suc i) ps processed s1
         | Inr (Some a) \<Rightarrow> convertPages env f opts n per (Suc i) ps (processed @ [a]) s1)"

text \<open>
  The two branches of the \<open>onload\<close> handler. The handler is an async function that the
  file reader calls later: a rejection inside it reaches no \<open>catch\<close> (the \<open>try\<close> of
  \<open>handleCompress\<close> has been left by then), so the state stays as the handler had set it.
\<close>

definition summaryBranch :: "Env \<Rightarrow> SourceFile \<Rightarrow> PdfDocument \<Rightarrow> AppState \<Rightarrow> AppState \<times> Call list" where
  "summaryBranch env f pdf s =
     (let s1 = s\<lparr>statusMessage := ''Extracting text from PDF...''\<rparr>
      in case extractText pdf [] of
           Inl e \<Rightarrow> (s1, [])
         | Inr fullText \<Rightarrow>
             (let s2 = s1\<lparr>statusMessage := ''AI is summarizing the content...''\<rparr>
              in case summarizePdfText env fullText of
                   Inl e \<Rightarrow> (s2, [Summarize fullText])
                 | Inr summarizedText \<Rightarrow>
                     (let s3 = s2\<lparr>statusMessage := ''Generating new PDF...''\<rparr>
                      in case pdfFromText env summarizedText of
                           Inl e \<Rightarrow> (s3, [Summarize fullText])
                         | Inr compressedBlob \<Rightarrow>
                             (let url = createObjectURL env compressedBlob;
                                  s4 = s3\<lparr>statusMessage := ''Generating preview...''\<rparr>
                              in case generatePdfPreview env compressedBlob of
                                   Inl e \<Rightarrow> (s4, [Summarize fullText])
                                 | Inr preview \<Rightarrow>
                                     (s4\<lparr>results :=
                                           [\<lparr>name = replaceFirst ''.pdf'' [] (fileName f) @ ''_summary.pdf'',
                                             dataUrl = url,
                                             previewUrl = preview,
                                             originalSize = fileSize f,
                                             compressedSize = blobSize compressedBlob\<rparr>],
                                         status := Success\<rparr>,
                                      [Summarize fullText])))))"

definition imageBranch :: "Env \<Rightarrow> SourceFile \<Rightarrow> CompressionOptions \<Rightarrow> PdfDocument \<Rightarrow> AppState \<Rightarrow> AppState \<times> Call list" where
  "imageBranch env f opts pdf s =
     (let originalSizePerPage = mathRoundDiv (fileSize f) (numPages pdf)
      in case convertPages env f opts (numPages pdf) originalSizePerPage 1 pdf [] s of
           (Inl e, s1) \<Rightarrow> (s1, [])
         | (Inr processed, s1) \<Rightarrow> (s1\<lparr>results := processed, status := Success\<rparr>, []))"

definition onload :: "Env \<Rightarrow> SourceFile \<Rightarrow> CompressionOptions \<Rightarrow> bytes option \<Rightarrow> AppState \<Rightarrow> AppState \<times> Call list" where
  "onload env f opts r s =
     (case r of
        None \<Rightarrow> (s\<lparr>error := Some ''Failed to read file.'', status := Error\<rparr>, [])
      | Some typedarray \<Rightarrow>
          (case getDocument env typedarray of
             Inl e \<Rightarrow> (s, [])
           | Inr pdf \<Rightarrow>
               if format opts = Pdf then summaryBranch env f pdf s
               else imageBranch env f opts pdf s))"

text \<open>
  \<open>handleCompress\<close>: nothing without a file; otherwise the state is reset, the reader is
  started (only a throw of these synchronous statements reaches the \<open>catch\<close>), and the
  handler of the event that arrives runs.
\<close>

definition handleCompress :: "Env \<Rightarrow> AppState \<Rightarrow> AppState \<times> Call list" where
  "handleCompress env s =
     (case file s of
        None \<Rightarrow> (s, [])
      | Some f \<Rightarrow>
          (let s1 = s\<lparr>status := Processing, results := [], error := None, editingState := None\<rparr>
           in case readAsArrayBuffer env f of
                SyncThrow msg \<Rightarrow>
                  (s1\<lparr>error := Some (orElse msg ''An unknown error occurred during compression.''),
                      status := Error\<rparr>, [])
              | ErrorEvent \<Rightarrow> (s1\<lparr>error := Some ''Error reading file.'', status := Error\<rparr>, [])
              | LoadEvent r \<Rightarrow> onload env f (options s) r s1))"

section \<open>handleApplyEdit\<close>

text \<open>
  The body of the \<open>try\<close>: the replacement artifact, or the message of what was thrown,
  with the calls made to the service.
  \<^verbatim>\<open>
  const { index, prompt } = editingState;
  if (!prompt) throw new Error("Please enter an edit description.");
  const originalFile = results[index];
  const dataUrl = originalFile.dataUrl;
  const parts = dataUrl.split(',');
  if (parts.length !== 2) throw new Error("Invalid Data URL");
  const mimeMatch = parts[0].match(/:(.*?);/);
  if (!mimeMatch) throw new Error("Could not determine MIME type");
  const mimeType = mimeMatch[1];
  const base64Data = parts[1];
  const newBase64Data = await editImageWithText(base64Data, mimeType, prompt);
  const newDataUrl = `data:${mimeType};base64,${newBase64Data}`;
  const newBlob = dataURLToBlob(newDataUrl);
  const updatedFile: ProcessedFile = {
    ...originalFile,
    name: originalFile.name.replace(/(\.[\w\d_-]+)$/i, '_edited$1'),
    dataUrl: newDataUrl,
    previewUrl: newDataUrl,
    compressedSize: newBlob.size,
  };
  \<close>
  \<open>results[index]\<close> past the end of the list is \<open>undefined\<close>, and reading its \<open>dataUrl\<close>
  throws a TypeError.
\<close>

definition editBody :: "Env \<Rightarrow> ProcessedFile list \<Rightarrow> EditingState \<Rightarrow> (string + ProcessedFile) \<times> Call list" where
  "editBody env rs es =
     (if prompt es = [] then (Inl ''Please enter an edit description.'', [])
      else if \<not> index es < length rs then (Inl ''Cannot read properties of undefined'', [])
      else
        (let originalFile = rs ! index es;
             parts = splitOn CHR '','' (dataUrl originalFile)
         in if length parts \<noteq> 2 then (Inl ''Invalid Data URL'', [])
            else (case mimeMatch (parts ! 0) of
                    None \<Rightarrow> (Inl ''Could not determine MIME type'', [])
                  | Some mimeType \<Rightarrow>
                      (let base64Data = parts ! 1;
                           calls = [EditImage base64Data mimeType (prompt es)]
                       in case editImageWithText env base64Data mimeType (prompt es) of
                            Inl e \<Rightarrow> (Inl e, calls)
                          | Inr newBase64Data \<Rightarrow>
                              (let newDataUrl = ''data:'' @ mimeType @ '';base64,'' @ newBase64Data
                               in case dataURLToBlob (atob env) newDataUrl of
                                    Inl e \<Rightarrow> (Inl e, calls)
                                  | Inr newBlob \<Rightarrow>
                                      (Inr (originalFile
                                             \<lparr>name := insertEdited (name originalFile),
                                              dataUrl := newDataUrl,
                                              previewUrl := newDataUrl,
                                              compressedSize := blobSize newBlob\<rparr>),
                                       calls))))))"

text \<open>
  \<^verbatim>\<open>
  if (!editingState) return;
  setEditingState({ ...editingState, isLoading: true });
  setError(null);
  try {
    ...
    setResults(currentResults => {
      const newResults = [...currentResults];
      newResults[index] = updatedFile;
      return newResults;
    });
    setEditingState(null);
  } catch (err: any) {
    setError(err.message || "An error occurred during AI editing.");
    if (editingState) {
        setEditingState({ ...editingState, isLoading: false });
    }
  }
  \<close>
  The updater of \<open>setResults\<close> runs on the list the handler read \<open>results[index]\<close> from:
  no other handler changes the list while the edit is in flight. The index is then inside
  the list, so the assignment replaces an element.
\<close>

definition handleApplyEdit :: "Env \<Rightarrow> AppState \<Rightarrow> AppState \<times> Call list" where
  "handleApplyEdit env s =
     (case editingState s of
        None \<Rightarrow> (s, [])
      | Some es \<Rightarrow>
          (let s1 = s\<lparr>editingState := Some (es\<lparr>isLoading := True\<rparr>), error := None\<rparr>
           in case editBody env (results s) es of
                (Inl msg, calls) \<Rightarrow>
                  (s1\<lparr>error := Some (orElse msg ''An error occurred during AI editing.''),
                      editingState := Some (es\<lparr>isLoading := False\<rparr>)\<rparr>, calls)
              | (Inr updatedFile, calls) \<Rightarrow>
                  (s1\<lparr>results := (results s1)[index es := updatedFile], editingState := None\<rparr>,
                   calls)))"

section \<open>Example inputs\<close>

definition docFile :: "nat \<Rightarrow> SourceFile" where
  "docFile n = \<lparr>fileName = ''doc.pdf'', fileSize = n, fileType = ''application/pdf''\<rparr>"

text \<open>A page that renders; every encoding of it is the same three bytes.\<close>

definition textPage :: "string list \<Rightarrow> PdfPage" where
  "textPage items =
     \<lparr>textItems = Inr items, context2d = True, render = (\<lambda>scale. None),
      toDataURL = (\<lambda>scale mimeType quality. ''data:'' @ mimeType @ '';base64,QUJD'')\<rparr>"

text \<open>An environment in which the reader delivers the bytes, the decoder answers \<open>doc\<close>
  for every input, the service answers \<open>short text\<close> and \<open>REVG\<close>, and \<open>atob\<close> knows the two
  payloads in use.\<close>

definition exampleEnv :: "string + PdfDocument \<Rightarrow> Env" where
  "exampleEnv doc =
     \<lparr>readAsArrayBuffer = (\<lambda>f. LoadEvent (Some [37, 80, 68, 70])),
      getDocument = (\<lambda>b. doc),
      summarizePdfText = (\<lambda>t. Inr ''short text''),
      editImageWithText = (\<lambda>b m p. Inr ''REVG''),
      pdfFromText = (\<lambda>t. Inr \<lparr>blobType = ''application/pdf'', blobBytes = map of_char t\<rparr>),
      createObjectURL = (\<lambda>b. ''blob:1''),
      atob = (\<lambda>t. if t = ''QUJD'' then Inr ''ABC'' else if t = ''REVG'' then Inr ''DEF''
                   else Inl ''The string to be decoded is not correctly encoded.'')\<rparr>"

definition startState :: "SourceFile \<Rightarrow> OutputFormat \<Rightarrow> CompressionLevel \<Rightarrow> AppState" where
  "startState f fmt lvl =
     \<lparr>file = Some f, options = \<lparr>format = fmt, level = lvl\<rparr>, status = Idle, statusMessage = [],
      results = [], error = None, editingState = None\<rparr>"

section \<open>Notions used in the statements\<close>

text \<open>A page that was obtained and whose canvas gave a 2D context.\<close>

definition hasContext :: "string + PdfPage \<Rightarrow> bool" where
  "hasContext p = (case p of Inl e \<Rightarrow> False | Inr page \<Rightarrow> context2d page)"

text \<open>The encoding of a page that the image loop stores: the page rendered at scale 1.5 and
  encoded in the format of the options at the quality of their level.\<close>

definition pageImage :: "CompressionOptions \<Rightarrow> string + PdfPage \<Rightarrow> string" where
  "pageImage opts p =
     (case p of
        Inl e \<Rightarrow> []
      | Inr page \<Rightarrow> toDataURL page 1.5 (''image/'' @ formatName (format opts)) (Some (getQuality opts)))"

text \<open>The state after a two-page JPEG run on \<open>doc.pdf\<close>, with an edit session open on the
  artifact at index \<open>k\<close> and the instruction \<open>p\<close> typed.\<close>

definition editingExample :: "nat \<Rightarrow> string \<Rightarrow> AppState" where
  "editingExample k p =
     \<lparr>file = Some (docFile 5), options = \<lparr>format = Jpeg, level = High\<rparr>, status = Success,
      statusMessage = ''Converting page 2 of 2...'',
      results = [\<lparr>name = ''doc_page_1.jpeg'', dataUrl = ''data:image/jpeg;base64,QUJD'',
                   previewUrl = ''data:image/jpeg;base64,QUJD'', originalSize = 3, compressedSize = 3\<rparr>,
                 \<lparr>name = ''doc_page_2.jpeg'', dataUrl = ''data:image/jpeg;base64,QUJD'',
                   previewUrl = ''data:image/jpeg;base64,QUJD'', originalSize = 3, compressedSize = 3\<rparr>],
      error = None,
      editingState = Some \<lparr>index = k, prompt = p, isLoading = False\<rparr>\<rparr>"

text \<open>The example environment with an image-edit service that fails.\<close>

definition failingEditEnv :: "string \<Rightarrow> Env" where
  "failingEditEnv msg = (exampleEnv (Inl []))\<lparr>editImageWithText := (\<lambda>b m p. Inl msg)\<rparr>"

section \<open>Properties of the size formatter\<close>

text \<open>The characters of a rendered number: decimal digits and the point.\<close>

definition numChars :: "char set" where
  "numChars = set ''0123456789.''"

lemma unitIndex_floorlog: "0 < b \<Longrightarrow> Suc (unitIndex b) = floorlog 1024 b"
proof (induction b rule: unitIndex.induct)
  case (1 b)
  show ?case
  proof (cases "b < 1024")
    case True
    then have "b div 1024 = 0" by simp
    with 1 True show ?thesis
      by (simp add: unitIndex.simps[of b] compute_floorlog[of 1024 b] compute_floorlog[of 1024 0])
  next
    case False
    then have "0 < b div 1024" by (simp add: div_greater_zero_iff)
    with 1 False show ?thesis
      by (simp add: unitIndex.simps[of b] compute_floorlog[of 1024 b])
  qed
qed

lemma unitIndex_log: "0 < b \<Longrightarrow> unitIndex b = nat \<lfloor>ln (real b) / ln 1024\<rfloor>"
  using unitIndex_floorlog[of b] by (simp add: floorlog_def log_def)

lemma unitIndex_less_iff: "0 < b \<Longrightarrow> unitIndex b < w \<longleftrightarrow> b < 1024 ^ w"
  using unitIndex_floorlog[of b] floorlog_le_iff[of 1024 b w] by auto


lemma unitIndex_0: "unitIndex 0 = 0"
  by (simp add: unitIndex.simps[of 0])

lemma digitChar_numChars: "digitChar d \<in> numChars"
proof -
  have "digitChar d \<in> set ''0123456789''"
    unfolding digitChar_def by (rule nth_mem) simp
  moreover have "set ''0123456789'' \<subseteq> numChars"
    by (simp add: numChars_def)
  ultimately show ?thesis by (rule rev_subsetD)
qed

lemma showNat_numChars: "set (showNat n) \<subseteq> numChars"
proof (induction n rule: showNat.induct)
  case (1 n)
  show ?case
  proof (cases "n < 10")
    case True
    then show ?thesis
      by (simp add: showNat.simps[of n] digitChar_numChars)
  next
    case False
    with 1 show ?thesis
      by (simp add: showNat.simps[of n] digitChar_numChars)
  qed
qed

lemma dot_numChars: "CHR ''.'' \<in> numChars"
  by (simp add: numChars_def)

lemma showHundredths_numChars: "set (showHundredths n) \<subseteq> numChars"
  by (simp add: showHundredths_def Let_def showNat_numChars digitChar_numChars dot_numChars)


lemma showHundredths_no_B: "CHR ''B'' \<notin> set (showHundredths n)"
proof -
  have "CHR ''B'' \<notin> numChars" by (simp add: numChars_def)
  with showHundredths_numChars[of n] show ?thesis by blast
qed

lemma formatFileSize_shape:
  "formatFileSize b =
     (if b = 0 then ''0'' else showHundredths (toFixed2 b (1024 ^ unitIndex b)))
       @ '' '' @ sizesAt (unitIndex b)"
  by (simp add: formatFileSize_def Let_def unitIndex_0 sizesAt_def sizes_def)


text \<open>
  C10. A byte count below \<open>1024^4\<close> is shown with one of the four names of the unit
  table: for a positive count the computed index is inside the table and selects the
  name, and a count of zero is answered \<open>0 Bytes\<close> before any index is computed. From
  \<open>1024^4\<close> on the index is past the end of the table, the text ends in \<open>undefined\<close>, and
  none of the four unit names occurs anywhere in it.
\<close>

theorem unit_lookup_in_bounds_iff:
  "(b < 1024 ^ 4 \<longrightarrow>
      (\<exists>num. \<exists>u \<in> set sizes. formatFileSize b = num @ '' '' @ u)
      \<and> (0 < b \<longrightarrow> unitIndex b < length sizes
            \<and> (\<exists>num. formatFileSize b = num @ '' '' @ sizes ! unitIndex b)))
   \<and> (1024 ^ 4 \<le> b \<longrightarrow>
      length sizes \<le> unitIndex b
      \<and> (\<exists>num. formatFileSize b = num @ '' undefined'')
      \<and> (\<forall>u \<in> set sizes. \<not> sublist u (formatFileSize b)))"
proof (intro conjI impI)
  assume lt: "b < 1024 ^ 4"
  have idx: "unitIndex b < length sizes"
  proof (cases "b = 0")
    case True
    then show ?thesis by (simp add: unitIndex_0 sizes_def)
  next
    case False
    with lt show ?thesis by (simp add: unitIndex_less_iff sizes_def)
  qed
  then have at: "sizesAt (unitIndex b) = sizes ! unitIndex b"
    by (simp add: sizesAt_def)
  have shape: "\<exists>num. formatFileSize b = num @ '' '' @ sizes ! unitIndex b"
    using formatFileSize_shape[of b] at by auto
  from idx have "sizes ! unitIndex b \<in> set sizes" by simp
  with shape show "\<exists>num. \<exists>u \<in> set sizes. formatFileSize b = num @ '' '' @ u"
    by blast
  show "unitIndex b < length sizes" by (rule idx)
  show "\<exists>num. formatFileSize b = num @ '' '' @ sizes ! unitIndex b" by (rule shape)
next
  assume ge: "1024 ^ 4 \<le> b"
  then have pos: "0 < b" by (simp add: Suc_le_eq less_le_trans[of 0 "1024 ^ 4" b])
  from ge pos have "\<not> unitIndex b < 4" by (simp add: unitIndex_less_iff)
  then show idx: "length sizes \<le> unitIndex b" by (simp add: sizes_def)
  then have at: "sizesAt (unitIndex b) = ''undefined''" by (simp add: sizesAt_def)
  have fmt: "formatFileSize b = showHundredths (toFixed2 b (1024 ^ unitIndex b)) @ '' undefined''"
    using formatFileSize_shape[of b] at pos by simp
  then show "\<exists>num. formatFileSize b = num @ '' undefined''" by blast
  have noB: "CHR ''B'' \<notin> set (formatFileSize b)"
    using showHundredths_no_B[of "toFixed2 b (1024 ^ unitIndex b)"] by (simp add: fmt)
  show "\<forall>u \<in> set sizes. \<not> sublist u (formatFileSize b)"
  proof
    fix u assume u: "u \<in> set sizes"
    then have "CHR ''B'' \<in> set u" by (auto simp: sizes_def)
    with noB show "\<not> sublist u (formatFileSize b)"
      using set_mono_sublist[of u "formatFileSize b"] by auto
  qed
qed

theorem unit_lookup_in_bounds_iff_witness:
  "(1536::nat) < 1024 ^ 4 \<and> (0::nat) < 1536 \<and> unitIndex 1536 < length sizes
   \<and> formatFileSize 1536 = ''1.5 KB''
   \<and> (1024::nat) ^ 4 \<le> 3 * 1024 ^ 4 \<and> length sizes \<le> unitIndex (3 * 1024 ^ 4)
   \<and> formatFileSize (3 * 1024 ^ 4) = ''3 undefined''
   \<and> \<not> sublist ''Bytes'' (formatFileSize (3 * 1024 ^ 4))
   \<and> \<not> sublist ''KB'' (formatFileSize (3 * 1024 ^ 4))
   \<and> \<not> sublist ''MB'' (formatFileSize (3 * 1024 ^ 4))
   \<and> \<not> sublist ''GB'' (formatFileSize (3 * 1024 ^ 4))"
proof -
  have a: "formatFileSize 1536 = ''1.5 KB''"
    by (simp add: formatFileSize_def unitIndex.simps toFixed2_def showHundredths_def
        showNat.simps digitChar_def sizesAt_def sizes_def)
  have b: "formatFileSize (3 * 1024 ^ 4) = ''3 undefined''"
    by (simp add: formatFileSize_def unitIndex.simps toFixed2_def showHundredths_def
        showNat.simps digitChar_def sizesAt_def sizes_def)
  have c: "length sizes \<le> unitIndex (3 * 1024 ^ 4)
      \<and> (\<forall>u \<in> set sizes. \<not> sublist u (formatFileSize (3 * 1024 ^ 4)))"
    using unit_lookup_in_bounds_iff[of "3 * 1024 ^ 4"] by simp
  have d: "unitIndex 1536 < length sizes"
    using unit_lookup_in_bounds_iff[of 1536] by simp
  from c have e: "\<not> sublist ''Bytes'' (formatFileSize (3 * 1024 ^ 4))
      \<and> \<not> sublist ''KB'' (formatFileSize (3 * 1024 ^ 4))
      \<and> \<not> sublist ''MB'' (formatFileSize (3 * 1024 ^ 4))
      \<and> \<not> sublist ''GB'' (formatFileSize (3 * 1024 ^ 4))"
    unfolding sizes_def by simp
  from a b c d e show ?thesis by simp
qed

section \<open>Facts about the string helpers and the rounding\<close>

lemma prefix_snoc_sublist:
  assumes "pat \<noteq> []" "prefix pat (c # xs @ pat)"
  shows "sublist pat (c # xs @ butlast pat)"
proof -
  from assms(2) obtain r where r: "c # xs @ pat = pat @ r" by (auto simp: prefix_def)
  have len: "length pat \<le> length (c # xs @ butlast pat)" using assms(1) by simp
  have "take (length pat) (c # xs @ pat) = pat" using r by simp
  moreover have "take (length pat) (c # xs @ pat) = take (length pat) (c # xs @ butlast pat)"
  proof -
    have "c # xs @ pat = (c # xs @ butlast pat) @ [last pat]" using assms(1) by simp
    then show ?thesis using len by (metis take_append diff_is_0_eq take_0 append_Nil2)
  qed
  ultimately have "prefix pat (c # xs @ butlast pat)"
    by (metis take_is_prefix)
  then show ?thesis by (rule prefix_imp_sublist)
qed

lemma replaceFirst_suffix:
  assumes "pat \<noteq> []"
  shows "\<not> sublist pat (base @ butlast pat) \<Longrightarrow> replaceFirst pat rep (base @ pat) = base @ rep"
proof (induction base)
  case Nil
  from assms obtain c cs where "pat = c # cs" by (cases pat) auto
  then show ?case by simp
next
  case (Cons c base)
  have np: "\<not> prefix pat (c # base @ pat)"
    using prefix_snoc_sublist[OF assms, of c base] Cons.prems by auto
  have "\<not> sublist pat (base @ butlast pat)"
    using Cons.prems by (auto simp: sublist_Cons_right)
  with Cons.IH np show ?case by simp
qed

lemma replaceFirst_pdf:
  "\<not> sublist ''.pdf'' (base @ ''.pd'') \<Longrightarrow> replaceFirst ''.pdf'' [] (base @ ''.pdf'') = base"
  using replaceFirst_suffix[of "''.pdf''" base "[]"] by simp



lemma mathRoundDiv_floor:
  assumes "0 < b"
  shows "mathRoundDiv a b = nat \<lfloor>real a / real b + 1 / 2\<rfloor>"
proof -
  have "real a / real b + 1 / 2 = real (2 * a + b) / real (2 * b)"
    using assms by (simp add: field_simps)
  then have "\<lfloor>real a / real b + 1 / 2\<rfloor> = int ((2 * a + b) div (2 * b))"
    by (simp only: floor_divide_of_nat_eq)
  then show ?thesis by (simp add: mathRoundDiv_def)
qed

section \<open>The quality mapping\<close>

text \<open>
  C6. The quality handed to the image encoder is a function of the level alone: 0.5 for
  low, 0.75 for medium and 0.92 for high, whatever the format of the options is. The
  image loop asks the encoder of a page for this quality and no other: an encoder that
  ignores the quality it is given and encodes at \<open>getQuality\<close> of the options serves the
  loop equally.
\<close>

theorem getQuality_by_level_only:
  "getQuality \<lparr>format = f, level = Low\<rparr> = 0.5
   \<and> getQuality \<lparr>format = f, level = Medium\<rparr> = 0.75
   \<and> getQuality \<lparr>format = f, level = High\<rparr> = 0.92
   \<and> getQuality (opts\<lparr>format := f\<rparr>) = getQuality opts
   \<and> convertPage env src opts per i (Inr page)
       = convertPage env src opts per i
           (Inr (page\<lparr>toDataURL := (\<lambda>scale mimeType q.
                    toDataURL page scale mimeType (Some (getQuality opts)))\<rparr>))"
proof -
  have "convertPage env src opts per i (Inr page)
       = convertPage env src opts per i
           (Inr (page\<lparr>toDataURL := (\<lambda>scale mimeType q.
                    toDataURL page scale mimeType (Some (getQuality opts)))\<rparr>))"
    by (simp add: convertPage_def Let_def split: option.splits)
  then show ?thesis by (simp add: getQuality_def)
qed

section \<open>The image loop\<close>

lemma convertPage_Some:
  assumes "convertPage env f opts per i p = Inr (Some a)"
  shows "hasContext p
    \<and> name a = replaceFirst ''.pdf'' [] (fileName f) @ ''_page_'' @ showNat i @ ''.'' @ formatName (format opts)
    \<and> originalSize a = per
    \<and> dataUrl a = pageImage opts p
    \<and> previewUrl a = pageImage opts p
    \<and> (\<exists>blob. dataURLToBlob (atob env) (pageImage opts p) = Inr blob \<and> compressedSize a = blobSize blob)"
  using assms
  by (auto simp: convertPage_def hasContext_def pageImage_def Let_def
      split: sum.splits if_splits option.splits)

lemma convertPage_None:
  assumes "convertPage env f opts per i p = Inr None"
  shows "\<not> hasContext p"
  using assms
  by (auto simp: convertPage_def hasContext_def Let_def split: sum.splits if_splits option.splits)

lemma convertPages_Inr:
  assumes "convertPages env f opts n per i pages processed s = (Inr out, s')"
  shows "\<exists>new. out = processed @ new
     \<and> map name new = map (\<lambda>(j, p). replaceFirst ''.pdf'' [] (fileName f) @ ''_page_'' @ showNat j
                                   @ ''.'' @ formatName (format opts))
                      (filter (\<lambda>(j, p). hasContext p) (enumerate i pages))
     \<and> map dataUrl new = map (\<lambda>(j, p). pageImage opts p) (filter (\<lambda>(j, p). hasContext p) (enumerate i pages))
     \<and> list_all (\<lambda>a. originalSize a = per) new"
  using assms
proof (induction pages arbitrary: i processed s)
  case Nil
  then show ?case by simp
next
  case (Cons p ps)
  let ?s1 = "s\<lparr>statusMessage := ''Converting page '' @ showNat i @ '' of '' @ showNat n @ ''...''\<rparr>"
  show ?case
  proof (cases "convertPage env f opts per i p")
    case (Inl e)
    with Cons.prems show ?thesis by simp
  next
    case (Inr r)
    show ?thesis
    proof (cases r)
      case None
      with Inr Cons.prems have
        "convertPages env f opts n per (Suc i) ps processed ?s1 = (Inr out, s')" by simp
      from Cons.IH[OF this] None Inr convertPage_None[of env f opts per i p]
      show ?thesis by simp
    next
      case (Some a)
      with Inr Cons.prems have
        "convertPages env f opts n per (Suc i) ps (processed @ [a]) ?s1 = (Inr out, s')" by simp
      from Cons.IH[OF this] obtain new where new: "out = (processed @ [a]) @ new"
        "map name new = map (\<lambda>(j, p). replaceFirst ''.pdf'' [] (fileName f) @ ''_page_'' @ showNat j
                                   @ ''.'' @ formatName (format opts))
                      (filter (\<lambda>(j, p). hasContext p) (enumerate (Suc i) ps))"
        "map dataUrl new = map (\<lambda>(j, p). pageImage opts p) (filter (\<lambda>(j, p). hasContext p) (enumerate (Suc i) ps))"
        "list_all (\<lambda>a. originalSize a = per) new"
        by blast
      from Some Inr have a: "convertPage env f opts per i p = Inr (Some a)" by simp
      note pa = convertPage_Some[OF a]
      show ?thesis
      proof (intro exI[of _ "a # new"] conjI)
        show "out = processed @ a # new" using new(1) by simp
        show "map name (a # new) = map (\<lambda>(j, p). replaceFirst ''.pdf'' [] (fileName f) @ ''_page_'' @ showNat j
                                   @ ''.'' @ formatName (format opts))
                      (filter (\<lambda>(j, p). hasContext p) (enumerate i (p # ps)))"
          using new(2) pa by simp
        show "map dataUrl (a # new) = map (\<lambda>(j, p). pageImage opts p) (filter (\<lambda>(j, p). hasContext p) (enumerate i (p # ps)))"
          using new(3) pa by simp
        show "list_all (\<lambda>a. originalSize a = per) (a # new)"
          using new(4) pa by simp
      qed
    qed
  qed
qed

lemma convertPages_state:
  "convertPages env f opts n per i pages processed s = (r, s') \<Longrightarrow> \<exists>m. s' = s\<lparr>statusMessage := m\<rparr>"
proof (induction pages arbitrary: i processed s)
  case Nil
  then have "s' = s\<lparr>statusMessage := statusMessage s\<rparr>" by simp
  then show ?case by blast
next
  case (Cons p ps)
  let ?s1 = "s\<lparr>statusMessage := ''Converting page '' @ showNat i @ '' of '' @ showNat n @ ''...''\<rparr>"
  show ?case
  proof (cases "convertPage env f opts per i p")
    case (Inl e)
    with Cons.prems have "s' = ?s1" by simp
    then show ?thesis by blast
  next
    case (Inr q)
    then obtain processed' where
      "convertPages env f opts n per (Suc i) ps processed' ?s1 = (r, s')"
      using Cons.prems by (cases q) simp_all
    from Cons.IH[OF this] obtain m where "s' = ?s1\<lparr>statusMessage := m\<rparr>" by blast
    then have "s' = s\<lparr>statusMessage := m\<rparr>" by simp
    then show ?thesis by blast
  qed
qed

lemma handleCompress_image_success:
  assumes "file s = Some f" "format (options s) \<noteq> Pdf"
    and "readAsArrayBuffer env f = LoadEvent (Some typedarray)"
    and "getDocument env typedarray = Inr pdf"
    and "status (fst (handleCompress env s)) = Success"
  shows "\<exists>s0 s1. convertPages env f (options s) (length pdf) (mathRoundDiv (fileSize f) (length pdf)) 1 pdf [] s0
            = (Inr (results (fst (handleCompress env s))), s1)"
proof -
  let ?s0 = "s\<lparr>status := Processing, results := [], error := None, editingState := None\<rparr>"
  obtain r s1 where c: "convertPages env f (options s) (length pdf)
      (mathRoundDiv (fileSize f) (length pdf)) 1 pdf [] ?s0 = (r, s1)"
    by (cases "convertPages env f (options s) (length pdf)
      (mathRoundDiv (fileSize f) (length pdf)) 1 pdf [] ?s0") auto
  from convertPages_state[OF c] have st: "status s1 = Processing" by auto
  have h: "handleCompress env s = imageBranch env f (options s) pdf ?s0"
    using assms(1-4) by (simp add: handleCompress_def onload_def Let_def)
  show ?thesis
  proof (cases r)
    case (Inl e)
    with c h st assms(5) show ?thesis by (simp add: imageBranch_def numPages_def Let_def)
  next
    case (Inr processed)
    with c h have "results (fst (handleCompress env s)) = processed"
      by (simp add: imageBranch_def numPages_def Let_def)
    with c Inr show ?thesis by blast
  qed
qed

section \<open>The image branch\<close>

text \<open>The definitions that evaluate a run on an example input.\<close>

lemmas run_defs =
  handleCompress_def onload_def imageBranch_def summaryBranch_def convertPage_def
  generatePdfPreview_def dataURLToBlob_def getPage_def numPages_def blobSize_def
  mathRoundDiv_def getQuality_def exampleEnv_def startState_def docFile_def textPage_def
  showNat.simps digitChar_def Let_def lineTerminator_def

lemma filter_enumerate_all:
  "list_all P ps \<Longrightarrow> filter (\<lambda>(j, p). P p) (enumerate i ps) = enumerate i ps"
  by (induction ps arbitrary: i) auto

lemma map_over_enumerate:
  "map (\<lambda>(j, p). g j) (enumerate i ps) = map g [i..<i + length ps]"
proof -
  have "map g [i..<i + length ps] = map g (map fst (enumerate i ps))" by simp
  also have "\<dots> = map (\<lambda>(j, p). g j) (enumerate i ps)"
    by (simp only: map_map comp_def case_prod_unfold)
  finally show ?thesis by simp
qed

text \<open>
  C1 (as amended). An image-mode run that ends in \<open>success\<close> on a decoded document leaves
  in \<open>results\<close>, in increasing page order, one artifact for each page whose canvas gave a
  2D context: the artifact of page \<open>i\<close> is named \<open>base_page_i.ext\<close> and holds the encoding
  of that page, where \<open>ext\<close> is the format and \<open>base\<close> is the file name without its final
  \<open>.pdf\<close>, for a file name that ends in \<open>.pdf\<close> and has no earlier occurrence of \<open>.pdf\<close>.
  When every page has a context there are exactly \<open>N\<close> artifacts, numbered \<open>1 .. N\<close>.
\<close>

theorem image_run_artifacts:
  assumes "file s = Some f" and "format (options s) \<noteq> Pdf"
    and "readAsArrayBuffer env f = LoadEvent (Some typedarray)"
    and "getDocument env typedarray = Inr pdf"
    and "status (fst (handleCompress env s)) = Success"
    and "fileName f = base @ ''.pdf''" and "\<not> sublist ''.pdf'' (base @ ''.pd'')"
  shows "map name (results (fst (handleCompress env s)))
           = map (\<lambda>(i, p). base @ ''_page_'' @ showNat i @ ''.'' @ formatName (format (options s)))
               (filter (\<lambda>(i, p). hasContext p) (enumerate 1 pdf))
      \<and> map dataUrl (results (fst (handleCompress env s)))
           = map (\<lambda>(i, p). pageImage (options s) p) (filter (\<lambda>(i, p). hasContext p) (enumerate 1 pdf))
      \<and> (list_all hasContext pdf \<longrightarrow>
            length (results (fst (handleCompress env s))) = length pdf
            \<and> map name (results (fst (handleCompress env s)))
                = map (\<lambda>i. base @ ''_page_'' @ showNat i @ ''.'' @ formatName (format (options s)))
                    [1..<Suc (length pdf)])"
proof -
  let ?rs = "results (fst (handleCompress env s))"
  let ?nm = "\<lambda>i. base @ ''_page_'' @ showNat i @ ''.'' @ formatName (format (options s))"
  from handleCompress_image_success[OF assms(1-5)] obtain s0 s1 where
    "convertPages env f (options s) (length pdf) (mathRoundDiv (fileSize f) (length pdf)) 1 pdf [] s0
       = (Inr ?rs, s1)" by blast
  from convertPages_Inr[OF this] have
    n: "map name ?rs = map (\<lambda>(j, p). replaceFirst ''.pdf'' [] (fileName f) @ ''_page_'' @ showNat j
                                   @ ''.'' @ formatName (format (options s)))
                      (filter (\<lambda>(j, p). hasContext p) (enumerate 1 pdf))"
    and d: "map dataUrl ?rs = map (\<lambda>(j, p). pageImage (options s) p)
                      (filter (\<lambda>(j, p). hasContext p) (enumerate 1 pdf))"
    by auto
  have b: "replaceFirst ''.pdf'' [] (fileName f) = base"
    using replaceFirst_pdf[OF assms(7)] assms(6) by simp
  from n b have n': "map name ?rs = map (\<lambda>(i, p). ?nm i) (filter (\<lambda>(i, p). hasContext p) (enumerate 1 pdf))"
    by simp
  have all: "length ?rs = length pdf \<and> map name ?rs = map ?nm [1..<Suc (length pdf)]"
    if "list_all hasContext pdf"
  proof -
    from n' that have e: "map name ?rs = map (\<lambda>(i, p). ?nm i) (enumerate 1 pdf)"
      by (simp add: filter_enumerate_all)
    then have "length (map name ?rs) = length (map (\<lambda>(i, p). ?nm i) (enumerate 1 pdf))"
      by simp
    then have l: "length ?rs = length pdf" by simp
    from e have "map name ?rs = map ?nm [1..<1 + length pdf]"
      by (simp only: map_over_enumerate)
    with l show ?thesis by simp
  qed
  from n' d all show ?thesis by blast
qed

text \<open>The theorem at a three-page document whose second page has no context, and at a
  two-page document converted to PNG.\<close>

theorem image_run_artifacts_witness:
  "status (fst (handleCompress
      (exampleEnv (Inr [Inr (textPage []), Inr ((textPage [])\<lparr>context2d := False\<rparr>), Inr (textPage [])]))
      (startState (docFile 5) Jpeg High))) = Success
   \<and> map name (results (fst (handleCompress
      (exampleEnv (Inr [Inr (textPage []), Inr ((textPage [])\<lparr>context2d := False\<rparr>), Inr (textPage [])]))
      (startState (docFile 5) Jpeg High)))) = [''doc_page_1.jpeg'', ''doc_page_3.jpeg'']
   \<and> map name (results (fst (handleCompress
      (exampleEnv (Inr [Inr (textPage []), Inr (textPage [])]))
      (startState (docFile 5) Png Low)))) = [''doc_page_1.png'', ''doc_page_2.png'']"
proof -
  let ?pdf = "[Inr (textPage []), Inr ((textPage [])\<lparr>context2d := False\<rparr>), Inr (textPage [])]"
  let ?pdf2 = "[Inr (textPage []), Inr (textPage [])] :: PdfDocument"
  let ?s = "startState (docFile 5) Jpeg High"
  let ?s2 = "startState (docFile 5) Png Low"
  have h1: "file ?s = Some (docFile 5)" "format (options ?s) \<noteq> Pdf"
    "file ?s2 = Some (docFile 5)" "format (options ?s2) \<noteq> Pdf"
    by (simp_all add: startState_def)
  have h3: "readAsArrayBuffer (exampleEnv (Inr ?pdf)) (docFile 5) = LoadEvent (Some [37, 80, 68, 70])"
    "readAsArrayBuffer (exampleEnv (Inr ?pdf2)) (docFile 5) = LoadEvent (Some [37, 80, 68, 70])"
    by (simp_all add: exampleEnv_def)
  have h4: "getDocument (exampleEnv (Inr ?pdf)) [37, 80, 68, 70] = Inr ?pdf"
    "getDocument (exampleEnv (Inr ?pdf2)) [37, 80, 68, 70] = Inr ?pdf2"
    by (simp_all add: exampleEnv_def)
  have h5: "status (fst (handleCompress (exampleEnv (Inr ?pdf)) ?s)) = Success"
    by (simp add: run_defs)
  have h5': "status (fst (handleCompress (exampleEnv (Inr ?pdf2)) ?s2)) = Success"
    by (simp add: run_defs)
  have h6: "fileName (docFile 5) = ''doc'' @ ''.pdf''" by (simp add: docFile_def)
  have h7: "\<not> sublist ''.pdf'' (''doc'' @ ''.pd'')" by (simp add: sublist_code)
  have c: "list_all hasContext ?pdf2" by (simp add: hasContext_def textPage_def)
  have "map name (results (fst (handleCompress (exampleEnv (Inr ?pdf)) ?s)))
           = map (\<lambda>(i, p). ''doc'' @ ''_page_'' @ showNat i @ ''.'' @ formatName (format (options ?s)))
               (filter (\<lambda>(i, p). hasContext p) (enumerate 1 ?pdf))"
    using image_run_artifacts[OF h1(1) h1(2) h3(1) h4(1) h5 h6 h7] by blast
  then have a: "map name (results (fst (handleCompress (exampleEnv (Inr ?pdf)) ?s)))
      = [''doc_page_1.jpeg'', ''doc_page_3.jpeg'']"
    by (simp add: hasContext_def textPage_def startState_def showNat.simps digitChar_def)
  have "map name (results (fst (handleCompress (exampleEnv (Inr ?pdf2)) ?s2)))
           = map (\<lambda>i. ''doc'' @ ''_page_'' @ showNat i @ ''.'' @ formatName (format (options ?s2)))
               [1..<Suc (length ?pdf2)]"
    using image_run_artifacts[OF h1(3) h1(4) h3(2) h4(2) h5' h6 h7] c by blast
  then have b: "map name (results (fst (handleCompress (exampleEnv (Inr ?pdf2)) ?s2)))
      = [''doc_page_1.png'', ''doc_page_2.png'']"
    by (simp add: startState_def showNat.simps digitChar_def upt_rec)
  from h5 a b show ?thesis by blast
qed

text \<open>
  Without the two restrictions the statement fails. A file named \<open>my.pdfs.pdf\<close> loses the
  first \<open>.pdf\<close> of its name, not its extension; and a one-page document whose canvas
  gives no context ends in \<open>success\<close> with no artifact.
\<close>

theorem image_run_artifacts_counterexample:
  "map name (results (fst (handleCompress (exampleEnv (Inr [Inr (textPage [])]))
      (startState \<lparr>fileName = ''my.pdfs.pdf'', fileSize = 5, fileType = ''application/pdf''\<rparr> Jpeg High))))
     = [''mys.pdf_page_1.jpeg'']
   \<and> ''mys.pdf_page_1.jpeg'' \<noteq> ''my.pdfs'' @ ''_page_'' @ showNat 1 @ ''.'' @ formatName Jpeg
   \<and> status (fst (handleCompress (exampleEnv (Inr [Inr ((textPage [])\<lparr>context2d := False\<rparr>)]))
      (startState (docFile 5) Jpeg High))) = Success
   \<and> length (results (fst (handleCompress (exampleEnv (Inr [Inr ((textPage [])\<lparr>context2d := False\<rparr>)]))
      (startState (docFile 5) Jpeg High)))) \<noteq> length [Inr ((textPage [])\<lparr>context2d := False\<rparr>) :: string + PdfPage]"
  by (simp add: run_defs)

text \<open>
  C8 (as amended). In an image-mode run that ends in \<open>success\<close> on a file of \<open>S\<close> bytes
  and a document of \<open>N\<close> pages, every artifact has the same \<open>originalSize\<close>: \<open>S / N\<close>
  rounded to the nearest integer, a half rounded up (\<open>Math.round\<close>), not rounded down.
\<close>

theorem image_run_original_size:
  assumes "file s = Some f" and "format (options s) \<noteq> Pdf"
    and "readAsArrayBuffer env f = LoadEvent (Some typedarray)"
    and "getDocument env typedarray = Inr pdf"
    and "status (fst (handleCompress env s)) = Success"
    and "a \<in> set (results (fst (handleCompress env s)))"
  shows "originalSize a = nat \<lfloor>real (fileSize f) / real (length pdf) + 1 / 2\<rfloor>
     \<and> originalSize a = (2 * fileSize f + length pdf) div (2 * length pdf)"
proof -
  let ?rs = "results (fst (handleCompress env s))"
  from handleCompress_image_success[OF assms(1-5)] obtain s0 s1 where
    c: "convertPages env f (options s) (length pdf) (mathRoundDiv (fileSize f) (length pdf)) 1 pdf [] s0
       = (Inr ?rs, s1)" by blast
  from convertPages_Inr[OF c] have
    all: "list_all (\<lambda>a. originalSize a = mathRoundDiv (fileSize f) (length pdf)) ?rs"
    by auto
  with assms(6) have o: "originalSize a = mathRoundDiv (fileSize f) (length pdf)"
    by (simp add: list_all_iff)
  have "pdf \<noteq> []"
  proof
    assume "pdf = []"
    with c have "?rs = []" by simp
    with assms(6) show False by simp
  qed
  then have "0 < length pdf" by simp
  from mathRoundDiv_floor[OF this, of "fileSize f"] o show ?thesis
    by (simp add: mathRoundDiv_def)
qed

text \<open>The theorem at the first and the last artifact of a three-page run on five bytes.\<close>

theorem image_run_original_size_witness:
  "status (fst (handleCompress
      (exampleEnv (Inr [Inr (textPage []), Inr (textPage []), Inr (textPage [])]))
      (startState (docFile 5) Jpeg High))) = Success
   \<and> originalSize (hd (results (fst (handleCompress
      (exampleEnv (Inr [Inr (textPage []), Inr (textPage []), Inr (textPage [])]))
      (startState (docFile 5) Jpeg High))))) = 2
   \<and> originalSize (last (results (fst (handleCompress
      (exampleEnv (Inr [Inr (textPage []), Inr (textPage []), Inr (textPage [])]))
      (startState (docFile 5) Jpeg High))))) = 2"
proof -
  let ?pdf = "[Inr (textPage []), Inr (textPage []), Inr (textPage [])] :: PdfDocument"
  let ?s = "startState (docFile 5) Jpeg High"
  let ?rs = "results (fst (handleCompress (exampleEnv (Inr ?pdf)) ?s))"
  have h1: "file ?s = Some (docFile 5)" "format (options ?s) \<noteq> Pdf"
    by (simp_all add: startState_def)
  have h3: "readAsArrayBuffer (exampleEnv (Inr ?pdf)) (docFile 5) = LoadEvent (Some [37, 80, 68, 70])"
    by (simp add: exampleEnv_def)
  have h4: "getDocument (exampleEnv (Inr ?pdf)) [37, 80, 68, 70] = Inr ?pdf"
    by (simp add: exampleEnv_def)
  have h5: "status (fst (handleCompress (exampleEnv (Inr ?pdf)) ?s)) = Success"
    by (simp add: run_defs)
  have m1: "hd ?rs \<in> set ?rs" by (simp add: run_defs)
  have m2: "last ?rs \<in> set ?rs" by (simp add: run_defs)
  have a: "originalSize (hd ?rs) = 2"
    using image_run_original_size[OF h1 h3 h4 h5 m1] by (simp add: docFile_def)
  have b: "originalSize (last ?rs) = 2"
    using image_run_original_size[OF h1 h3 h4 h5 m2] by (simp add: docFile_def)
  from h5 a b show ?thesis by blast
qed

text \<open>Five bytes over three pages: every artifact records 2, while the quotient rounded
  down is 1.\<close>

theorem image_run_original_size_counterexample:
  "map originalSize (results (fst (handleCompress
      (exampleEnv (Inr [Inr (textPage []), Inr (textPage []), Inr (textPage [])]))
      (startState (docFile 5) Jpeg High)))) = [2, 2, 2]
   \<and> fileSize (docFile 5) div length [Inr (textPage []), Inr (textPage []), Inr (textPage []) :: string + PdfPage] = 1"
  by (simp add: run_defs)

section \<open>The summary branch\<close>

lemma extractText_ok:
  assumes "map textItems pages = map Inr itemss"
  shows "extractText (map Inr pages) acc
     = Inr (acc @ concat (map (\<lambda>items. joinWith '' '' items @ [CHR 0x0A, CHR 0x0A]) itemss))"
  using assms
proof (induction pages arbitrary: acc itemss)
  case Nil
  then show ?case by simp
next
  case (Cons pg pages)
  then obtain items rest where i: "itemss = items # rest" "textItems pg = Inr items"
    "map textItems pages = map Inr rest"
    by (cases itemss) auto
  from Cons.IH[OF i(3)] i show ?case by simp
qed

text \<open>
  C7 (as amended). In a summary-mode run on a decoded document whose pages give their
  texts \<open>t_1 .. t_N\<close> (the items of a page joined by single spaces), the text sent to the
  summarization service is \<open>t_1\<close>, a blank line, ..., \<open>t_N\<close>, a blank line: every page text
  in page order, each followed by the two line feeds, the last one too.
\<close>

theorem summary_text_sent:
  assumes "file s = Some f" and "format (options s) = Pdf"
    and "readAsArrayBuffer env f = LoadEvent (Some typedarray)"
    and "getDocument env typedarray = Inr (map Inr pages)"
    and "map textItems pages = map Inr itemss"
  shows "snd (handleCompress env s)
     = [Summarize (concat (map (\<lambda>items. joinWith '' '' items @ [CHR 0x0A, CHR 0x0A]) itemss))]"
  using assms extractText_ok[OF assms(5), of "[]"]
  by (simp add: handleCompress_def onload_def summaryBranch_def Let_def
      split: sum.splits)

text \<open>The theorem at a two-page document.\<close>

theorem summary_text_sent_witness:
  "snd (handleCompress (exampleEnv (Inr [Inr (textPage [''Hello'', ''world'']), Inr (textPage [''Bye''])]))
        (startState (docFile 5) Pdf High))
     = [Summarize (''Hello world'' @ [CHR 0x0A, CHR 0x0A] @ ''Bye'' @ [CHR 0x0A, CHR 0x0A])]"
proof -
  let ?pages = "[textPage [''Hello'', ''world''], textPage [''Bye'']]"
  let ?env = "exampleEnv (Inr [Inr (textPage [''Hello'', ''world'']), Inr (textPage [''Bye''])])"
  let ?s = "startState (docFile 5) Pdf High"
  have h1: "file ?s = Some (docFile 5)" "format (options ?s) = Pdf"
    by (simp_all add: startState_def)
  have h3: "readAsArrayBuffer ?env (docFile 5) = LoadEvent (Some [37, 80, 68, 70])"
    by (simp add: exampleEnv_def)
  have h4: "getDocument ?env [37, 80, 68, 70] = Inr (map Inr ?pages)"
    by (simp add: exampleEnv_def)
  have h5: "map textItems ?pages = map Inr [[''Hello'', ''world''], [''Bye'']]"
    by (simp add: textPage_def)
  show ?thesis
    using summary_text_sent[OF h1 h3 h4 h5] by simp
qed

text \<open>A one-page document: the text sent ends in the two line feeds, while joining the
  page texts with the separator between consecutive pages gives the page text alone.\<close>

theorem summary_text_sent_counterexample:
  "snd (handleCompress (exampleEnv (Inr [Inr (textPage [''Hello''])])) (startState (docFile 5) Pdf High))
     = [Summarize (''Hello'' @ [CHR 0x0A, CHR 0x0A])]
   \<and> ''Hello'' @ [CHR 0x0A, CHR 0x0A] \<noteq> joinWith [CHR 0x0A, CHR 0x0A] [''Hello'']"
  by (simp add: run_defs)




section \<open>Failure of a run\<close>

text \<open>A run that does not end in \<open>success\<close> leaves no artifact: \<open>results\<close> is emptied at the
  start and assigned again only after the last step of a branch.\<close>

lemma handleCompress_no_partial_results:
  assumes "file s = Some f" and "status (fst (handleCompress env s)) \<noteq> Success"
  shows "results (fst (handleCompress env s)) = []"
proof -
  let ?s0 = "s\<lparr>status := Processing, results := [], error := None, editingState := None\<rparr>"
  have img: "results (fst (imageBranch env f opts pdf ?s0)) = []"
    if "status (fst (imageBranch env f opts pdf ?s0)) \<noteq> Success" for opts pdf
  proof -
    obtain r s1 where c: "convertPages env f opts (length pdf)
        (mathRoundDiv (fileSize f) (length pdf)) 1 pdf [] ?s0 = (r, s1)"
      by (cases "convertPages env f opts (length pdf)
        (mathRoundDiv (fileSize f) (length pdf)) 1 pdf [] ?s0") auto
    from convertPages_state[OF c] have "results s1 = []" by auto
    with c that show ?thesis
      by (cases r) (simp_all add: imageBranch_def numPages_def Let_def)
  qed
  have sm: "results (fst (summaryBranch env f pdf ?s0)) = []"
    if "status (fst (summaryBranch env f pdf ?s0)) \<noteq> Success" for pdf
    using that by (auto simp: summaryBranch_def Let_def split: sum.splits)
  show ?thesis
    using assms img sm
    by (auto simp: handleCompress_def onload_def Let_def
        split: ReadOutcome.splits option.splits sum.splits if_splits)
qed

text \<open>
  C2. A failed run is to end in the error status with a message and without artifacts.
  The script does not get there: when the document cannot be decoded, and when the second
  page of two fails to render, the rejection inside the \<open>onload\<close> handler reaches no
  \<open>catch\<close>, and the run is left in status \<open>processing\<close> with no error message (and with
  no results).
\<close>

theorem failed_run_stays_processing:
  "status (fst (handleCompress (exampleEnv (Inl ''Invalid PDF structure'')) (startState (docFile 5) Jpeg High)))
     = Processing
   \<and> error (fst (handleCompress (exampleEnv (Inl ''Invalid PDF structure'')) (startState (docFile 5) Jpeg High)))
     = None
   \<and> results (fst (handleCompress (exampleEnv (Inl ''Invalid PDF structure'')) (startState (docFile 5) Jpeg High)))
     = []
   \<and> status (fst (handleCompress
        (exampleEnv (Inr [Inr (textPage []), Inr ((textPage [])\<lparr>render := (\<lambda>scale. Some ''Rendering failed'')\<rparr>)]))
        (startState (docFile 5) Jpeg High))) = Processing
   \<and> error (fst (handleCompress
        (exampleEnv (Inr [Inr (textPage []), Inr ((textPage [])\<lparr>render := (\<lambda>scale. Some ''Rendering failed'')\<rparr>)]))
        (startState (docFile 5) Jpeg High))) = None
   \<and> statusMessage (fst (handleCompress
        (exampleEnv (Inr [Inr (textPage []), Inr ((textPage [])\<lparr>render := (\<lambda>scale. Some ''Rendering failed'')\<rparr>)]))
        (startState (docFile 5) Jpeg High))) = ''Converting page 2 of 2...''
   \<and> results (fst (handleCompress
        (exampleEnv (Inr [Inr (textPage []), Inr ((textPage [])\<lparr>render := (\<lambda>scale. Some ''Rendering failed'')\<rparr>)]))
        (startState (docFile 5) Jpeg High))) = []"
  by (simp add: run_defs)

section \<open>The edit step\<close>

lemma editBody_remote_failure:
  assumes "snd (editBody env rs es) = [EditImage b64 mime p]"
    and "editImageWithText env b64 mime p = Inl msg"
  shows "fst (editBody env rs es) = Inl msg"
  using assms
  by (auto simp: editBody_def Let_def split: option.splits sum.splits if_splits)

text \<open>
  C4. In an apply-edit attempt on an open edit session: with an empty instruction the
  validation message becomes the error and no call to the image-edit service is made;
  when the call to the service was made and the service failed, its message becomes the
  error (the fallback text when the message is empty). In both cases the results list is
  unchanged and the session stays open with its in-flight flag cleared.
\<close>

theorem apply_edit_failures:
  assumes "editingState s = Some es"
  shows "(prompt es = [] \<longrightarrow>
            handleApplyEdit env s
              = (s\<lparr>error := Some ''Please enter an edit description.'',
                   editingState := Some (es\<lparr>isLoading := False\<rparr>)\<rparr>, []))
     \<and> (\<forall>b64 mime p msg.
            snd (handleApplyEdit env s) = [EditImage b64 mime p]
            \<and> editImageWithText env b64 mime p = Inl msg \<longrightarrow>
              fst (handleApplyEdit env s)
                = s\<lparr>error := Some (orElse msg ''An error occurred during AI editing.''),
                    editingState := Some (es\<lparr>isLoading := False\<rparr>)\<rparr>
              \<and> results (fst (handleApplyEdit env s)) = results s
              \<and> (msg \<noteq> [] \<longrightarrow> error (fst (handleApplyEdit env s)) = Some msg))"
proof (intro conjI impI allI)
  assume "prompt es = []"
  with assms show "handleApplyEdit env s
              = (s\<lparr>error := Some ''Please enter an edit description.'',
                   editingState := Some (es\<lparr>isLoading := False\<rparr>)\<rparr>, [])"
    by (simp add: handleApplyEdit_def editBody_def orElse_def)
next
  fix b64 mime p msg
  assume a: "snd (handleApplyEdit env s) = [EditImage b64 mime p]
            \<and> editImageWithText env b64 mime p = Inl msg"
  obtain r calls where e: "editBody env (results s) es = (r, calls)"
    by (cases "editBody env (results s) es") auto
  with assms have "snd (handleApplyEdit env s) = calls"
    by (cases r) (simp_all add: handleApplyEdit_def Let_def)
  with a e have "snd (editBody env (results s) es) = [EditImage b64 mime p]" by simp
  from editBody_remote_failure[OF this] a e have r: "r = Inl msg" by simp
  with assms e show f: "fst (handleApplyEdit env s)
                = s\<lparr>error := Some (orElse msg ''An error occurred during AI editing.''),
                    editingState := Some (es\<lparr>isLoading := False\<rparr>)\<rparr>"
    by (simp add: handleApplyEdit_def Let_def)
  then show "results (fst (handleApplyEdit env s)) = results s" by simp
  show "error (fst (handleApplyEdit env s)) = Some msg" if "msg \<noteq> []"
    using f that by (simp add: orElse_def)
qed

section \<open>Facts about data URLs\<close>









text \<open>The definitions that evaluate an edit on an example state.\<close>

lemmas edit_defs =
  handleApplyEdit_def editBody_def dataURLToBlob_def blobSize_def orElse_def Let_def
  lineTerminator_def extMatchHere_def extChar_def
  editingExample_def failingEditEnv_def exampleEnv_def docFile_def

text \<open>The theorem at an empty instruction, and at an instruction sent to a service that
  answers \<open>quota exceeded\<close>.\<close>

theorem apply_edit_failures_witness:
  "handleApplyEdit (exampleEnv (Inl [])) (editingExample 1 [])
     = ((editingExample 1 [])\<lparr>error := Some ''Please enter an edit description.''\<rparr>, [])
   \<and> snd (handleApplyEdit (failingEditEnv ''quota exceeded'') (editingExample 1 ''grayscale''))
     = [EditImage ''QUJD'' ''image/jpeg'' ''grayscale'']
   \<and> fst (handleApplyEdit (failingEditEnv ''quota exceeded'') (editingExample 1 ''grayscale''))
     = (editingExample 1 ''grayscale'')\<lparr>error := Some ''quota exceeded''\<rparr>"
proof -
  let ?es0 = "\<lparr>index = 1, prompt = [], isLoading = False\<rparr>"
  let ?es1 = "\<lparr>index = 1, prompt = ''grayscale'', isLoading = False\<rparr>"
  have e0: "editingState (editingExample 1 []) = Some ?es0"
    and e1: "editingState (editingExample 1 ''grayscale'') = Some ?es1"
    by (simp_all add: editingExample_def)
  have p0: "prompt ?es0 = []" by simp
  have a: "handleApplyEdit (exampleEnv (Inl [])) (editingExample 1 [])
     = ((editingExample 1 [])\<lparr>error := Some ''Please enter an edit description.''\<rparr>, [])"
    using apply_edit_failures[OF e0, of "exampleEnv (Inl [])"] p0
    by (simp add: editingExample_def)
  have c: "snd (handleApplyEdit (failingEditEnv ''quota exceeded'') (editingExample 1 ''grayscale''))
     = [EditImage ''QUJD'' ''image/jpeg'' ''grayscale'']"
    by (simp add: edit_defs)
  have r: "editImageWithText (failingEditEnv ''quota exceeded'') ''QUJD'' ''image/jpeg'' ''grayscale''
     = Inl ''quota exceeded''"
    by (simp add: failingEditEnv_def)
  have b: "fst (handleApplyEdit (failingEditEnv ''quota exceeded'') (editingExample 1 ''grayscale''))
     = (editingExample 1 ''grayscale'')\<lparr>error := Some ''quota exceeded''\<rparr>"
    using apply_edit_failures[OF e1, of "failingEditEnv ''quota exceeded''"] c r
    by (simp add: editingExample_def orElse_def)
  from a b c show ?thesis by blast
qed




end
